theory Spec2Isabelle
  imports Complex_Main "HOL-Library.Multiset"
begin

section \<open>Cart items and the client-side cart comparison helpers\<close>

text \<open>
  \<^verbatim>\<open>CartItem\<close> of \<^verbatim>\<open>scenario-types.ts\<close>. The TypeScript \<^verbatim>\<open>number\<close> of
  \<^verbatim>\<open>quantity\<close> is an integer here (the server sends integer quantities), and the
  strict equality \<^verbatim>\<open>===\<close> on strings and on such numbers is HOL equality.
\<close>

record CartItem =
  product_id :: string
  product_name :: string
  quantity :: int
  unit :: string

text \<open>\<^verbatim>\<open>cartItemsMatch\<close> (Scenarios.tsx, 944-948): the product name is not compared.\<close>

definition cartItemsMatch :: "CartItem \<Rightarrow> CartItem \<Rightarrow> bool" where
  "cartItemsMatch gt pred \<longleftrightarrow>
     product_id gt = product_id pred \<and>
     quantity gt = quantity pred \<and>
     unit gt = unit pred"

datatype MismatchType =
    exact_match
  | quantity_mismatch
  | unit_mismatch
  | quantity_and_unit_mismatch
  | extra_item
  | missing_item

text \<open>
  \<^verbatim>\<open>MismatchDetail\<close>: the optional fields are \<open>None\<close> where the object literal of
  the source leaves them out.
\<close>

record MismatchDetail =
  type :: MismatchType
  productId :: string
  expectedQuantity :: "int option"
  actualQuantity :: "int option"
  expectedUnit :: "string option"
  actualUnit :: "string option"

text \<open>
  \<^verbatim>\<open>getMismatchDetail\<close> (Scenarios.tsx, 963-1007). \<^verbatim>\<open>Array.prototype.find\<close> returns
  the first element that satisfies the predicate, or \<^verbatim>\<open>undefined\<close>; an object is always
  truthy, so \<^verbatim>\<open>!matchingProduct\<close> holds exactly when nothing was found.
\<close>

definition getMismatchDetail :: "CartItem \<Rightarrow> CartItem list \<Rightarrow> MismatchDetail" where
  "getMismatchDetail pred groundTruth =
     (case find (\<lambda>gt. product_id gt = product_id pred) groundTruth of
        None \<Rightarrow>
          \<lparr>type = extra_item, productId = product_id pred,
           expectedQuantity = None, actualQuantity = None,
           expectedUnit = None, actualUnit = None\<rparr>
      | Some matchingProduct \<Rightarrow>
          (let quantityMatches = (quantity matchingProduct = quantity pred);
               unitMatches = (unit matchingProduct = unit pred)
           in if quantityMatches \<and> unitMatches then
                \<lparr>type = exact_match, productId = product_id pred,
                 expectedQuantity = None, actualQuantity = None,
                 expectedUnit = None, actualUnit = None\<rparr>
              else if \<not> quantityMatches \<and> \<not> unitMatches then
                \<lparr>type = quantity_and_unit_mismatch, productId = product_id pred,
                 expectedQuantity = Some (quantity matchingProduct),
                 actualQuantity = Some (quantity pred),
                 expectedUnit = Some (unit matchingProduct),
                 actualUnit = Some (unit pred)\<rparr>
              else if \<not> quantityMatches then
                \<lparr>type = quantity_mismatch, productId = product_id pred,
                 expectedQuantity = Some (quantity matchingProduct),
                 actualQuantity = Some (quantity pred),
                 expectedUnit = Some (unit matchingProduct),
                 actualUnit = Some (unit pred)\<rparr>
              else
                \<lparr>type = unit_mismatch, productId = product_id pred,
                 expectedQuantity = Some (quantity matchingProduct),
                 actualQuantity = Some (quantity pred),
                 expectedUnit = Some (unit matchingProduct),
                 actualUnit = Some (unit pred)\<rparr>))"

text \<open>
  \<^verbatim>\<open>getMissingItems\<close> (Scenarios.tsx, 1010-1012): \<^verbatim>\<open>filter\<close> keeps the order of the
  array, \<^verbatim>\<open>some\<close> is \<open>list_ex\<close>.
\<close>

definition getMissingItems :: "CartItem list \<Rightarrow> CartItem list \<Rightarrow> CartItem list" where
  "getMissingItems groundTruth predictions =
     filter (\<lambda>gt. \<not> list_ex (\<lambda>pred. product_id pred = product_id gt) predictions)
       groundTruth"

text \<open>
  The exact-match flag of the results tab (Scenarios.tsx, 2644-2647): equal lengths, and
  \<^verbatim>\<open>every\<close> ground-truth item has \<^verbatim>\<open>some\<close> predicted item that matches it.
\<close>

definition isExactMatch :: "CartItem list \<Rightarrow> CartItem list \<Rightarrow> bool" where
  "isExactMatch gtItems predItems \<longleftrightarrow>
     length gtItems = length predItems \<and>
     list_all (\<lambda>gt. list_ex (\<lambda>pred. cartItemsMatch gt pred) predItems) gtItems"

text \<open>The part of an item that the comparison looks at: product id, quantity and unit.\<close>

definition item_key :: "CartItem \<Rightarrow> string \<times> int \<times> string" where
  "item_key c = (product_id c, quantity c, unit c)"

text \<open>The carts of the spec's examples.\<close>

definition mk_item :: "string \<Rightarrow> int \<Rightarrow> string \<Rightarrow> CartItem" where
  "mk_item pid q u = \<lparr>product_id = pid, product_name = pid, quantity = q, unit = u\<rparr>"


section \<open>Token cost of a model result\<close>


















section \<open>Selection of scenarios for batch execution\<close>

text \<open>
  A JavaScript \<^verbatim>\<open>Set<string>\<close> is a list in insertion order: \<^verbatim>\<open>add\<close> appends a
  value that is not yet a member and does nothing otherwise, \<^verbatim>\<open>delete\<close> removes the
  value, \<^verbatim>\<open>new Set(iterable)\<close> adds the values one after the other, and
  \<^verbatim>\<open>Array.from\<close> lists the members in insertion order.
\<close>

type_synonym js_set = "string list"

definition Set_empty :: js_set where
  "Set_empty = []"

definition Set_has :: "js_set \<Rightarrow> string \<Rightarrow> bool" where
  "Set_has s x \<longleftrightarrow> x \<in> set s"

definition Set_add :: "string \<Rightarrow> js_set \<Rightarrow> js_set" where
  "Set_add x s = (if Set_has s x then s else s @ [x])"

definition Set_delete :: "string \<Rightarrow> js_set \<Rightarrow> js_set" where
  "Set_delete x s = filter (\<lambda>y. y \<noteq> x) s"

definition Set_new :: "string list \<Rightarrow> js_set" where
  "Set_new xs = fold Set_add xs Set_empty"

definition Set_size :: "js_set \<Rightarrow> nat" where
  "Set_size s = length s"

definition Array_from :: "js_set \<Rightarrow> string list" where
  "Array_from s = s"

text \<open>
  \<^verbatim>\<open>toggleScenarioSelection\<close> (Scenarios.tsx, 59-69), the updater passed to
  \<^verbatim>\<open>setSelectedScenarios\<close>: a copy of the previous set, with the id removed when it
  was a member and added otherwise.
\<close>

definition toggleScenarioSelection :: "string \<Rightarrow> js_set \<Rightarrow> js_set" where
  "toggleScenarioSelection scenarioId prev =
     (let newSet = Set_new (Array_from prev)
      in if Set_has newSet scenarioId then Set_delete scenarioId newSet
         else Set_add scenarioId newSet)"

text \<open>
  \<^verbatim>\<open>selectAllScenarios\<close> (72-75) on the ids of the loaded scenarios, and
  \<^verbatim>\<open>clearSelection\<close> (78-81).
\<close>

definition selectAllScenarios :: "string list \<Rightarrow> js_set" where
  "selectAllScenarios allIds = Set_new allIds"

definition clearSelection :: js_set where
  "clearSelection = Set_empty"

text \<open>
  The selections the component can hold: the initial \<^verbatim>\<open>new Set()\<close>, and what the three
  handlers make of a selection.
\<close>

inductive selection_reachable :: "js_set \<Rightarrow> bool" where
  initial: "selection_reachable Set_empty"
| toggle: "selection_reachable s \<Longrightarrow> selection_reachable (toggleScenarioSelection scenarioId s)"
| select_all: "selection_reachable s \<Longrightarrow> selection_reachable (selectAllScenarios allIds)"
| clear: "selection_reachable s \<Longrightarrow> selection_reachable clearSelection"

text \<open>
  \<^verbatim>\<open>handleBatchExecute\<close> (84-115), up to the request: with an empty selection it shows
  the error toast and sends nothing (\<open>Inl\<close>); otherwise the body of the request to
  \<^verbatim>\<open>batchExecute\<close> is \<^verbatim>\<open>Array.from(selectedScenarios)\<close> (\<open>Inr\<close>).
\<close>

definition handleBatchExecute :: "js_set \<Rightarrow> string + string list" where
  "handleBatchExecute selectedScenarios =
     (if Set_size selectedScenarios = 0 then Inl ''No scenarios selected''
      else Inr (Array_from selectedScenarios))"


section \<open>Execution status and the two pollers\<close>

text \<open>
  \<^verbatim>\<open>ExecutionStatus\<close> as \<^verbatim>\<open>scenario-types.ts\<close> declares it:
  \<^verbatim>\<open>'pending' | 'running' | 'completed' | 'failed'\<close>, with the string each value is.
\<close>

datatype ExecutionStatus = pending | running | completed | failed

fun ExecutionStatus_literal :: "ExecutionStatus \<Rightarrow> string" where
  "ExecutionStatus_literal pending = ''pending''"
| "ExecutionStatus_literal running = ''running''"
| "ExecutionStatus_literal completed = ''completed''"
| "ExecutionStatus_literal failed = ''failed''"

text \<open>
  \<^verbatim>\<open>ExecutionStatusInfo\<close>. The status is the string that arrives in the JSON of a
  status response: the pollers compare it with string literals, among them
  \<^verbatim>\<open>'cancelled'\<close>. The field \<^verbatim>\<open>error\<close> is \<open>status_error\<close> here.
\<close>

record ExecutionStatusInfo =
  status :: string
  current_model :: "string option"
  current_model_index :: "nat option"
  total_models :: "nat option"
  current_step :: nat
  total_steps :: nat
  steps_processed :: nat
  steps_skipped :: nat
  steps_failed :: nat
  models_completed :: "nat option"
  status_error :: "string option"

text \<open>
  The test both pollers make on a response (Scenarios.tsx, 188 and 1093):
  \<^verbatim>\<open>status === 'completed' || status === 'failed' || status === 'cancelled'\<close>.
\<close>

definition terminal_status :: "string \<Rightarrow> bool" where
  "terminal_status s \<longleftrightarrow> s = ''completed'' \<or> s = ''failed'' \<or> s = ''cancelled''"

text \<open>
  Notifications (\<^verbatim>\<open>toast.success\<close>, \<^verbatim>\<open>toast.info\<close>, \<^verbatim>\<open>toast.error\<close>) are kept in a
  log. A pending \<^verbatim>\<open>setTimeout\<close> of the scenario list is the pair of its delay in
  milliseconds and of the scenario id its callback clears. Of a \<^verbatim>\<open>Scenario\<close> the
  list uses the id, the name and the number of steps.
\<close>

datatype toast = toast_success string | toast_info string | toast_error string

record Scenario_head =
  scenario_id :: string
  name :: string
  steps_length :: nat

text \<open>
  The state of the scenario list that polling touches: the React state
  \<^verbatim>\<open>executionStatuses\<close> and \<^verbatim>\<open>scenarios\<close>, the refs \<^verbatim>\<open>pollingIntervals\<close> (the ids
  that have an interval) and \<^verbatim>\<open>completedScenarios\<close>, the notifications shown and the
  pending timeouts.
\<close>

record Scenarios_state =
  executionStatuses :: "string \<rightharpoonup> ExecutionStatusInfo"
  scenarios :: "Scenario_head list"
  pollingIntervals :: "string set"
  completedScenarios :: "string set"
  toasts :: "toast list"
  timeouts :: "(nat \<times> string) list"

text \<open>
  \<^verbatim>\<open>scenarioName || scenarios.find(...)?.name || 'Scenario'\<close>: an absent or empty
  string is falsy.
\<close>

definition toast_name :: "string option \<Rightarrow> Scenario_head list \<Rightarrow> string \<Rightarrow> string" where
  "toast_name scenarioName scs scenarioId =
     (let fallback =
            (case find (\<lambda>s. scenario_id s = scenarioId) scs of
               Some s \<Rightarrow> (if name s \<noteq> [] then name s else ''Scenario'')
             | None \<Rightarrow> ''Scenario'')
      in case scenarioName of
           Some n \<Rightarrow> (if n \<noteq> [] then n else fallback)
         | None \<Rightarrow> fallback)"

definition quoted :: "string \<Rightarrow> string" where
  "quoted n = CHR 0x22 # n @ [CHR 0x22]"

definition terminal_toast :: "string \<Rightarrow> ExecutionStatusInfo \<Rightarrow> toast" where
  "terminal_toast n info =
     (if status info = ''completed'' then toast_success (quoted n @ '' completed successfully'')
      else if status info = ''cancelled'' then toast_info (quoted n @ '' was cancelled'')
      else toast_error (quoted n @ '' failed: '' @
             (case status_error info of
                Some e \<Rightarrow> (if e \<noteq> [] then e else ''Unknown error'')
              | None \<Rightarrow> ''Unknown error'')))"

text \<open>
  The callback of the 3000 ms timeout (Scenarios.tsx, 210-218): the status entry of the
  scenario is deleted from a copy of the map, and the scenario leaves
  \<^verbatim>\<open>completedScenarios\<close>.
\<close>

definition clear_status :: "string \<Rightarrow> Scenarios_state \<Rightarrow> Scenarios_state" where
  "clear_status scenarioId st =
     st\<lparr>executionStatuses := (executionStatuses st)(scenarioId := None),
        completedScenarios := completedScenarios st - {scenarioId}\<rparr>"

text \<open>
  \<^verbatim>\<open>poll\<close> of the scenario list (Scenarios.tsx, 179-227), from the point where the
  awaited status request settles. A rejected request (\<open>None\<close>) is logged and changes
  nothing. Otherwise the status is stored; on a terminal status the interval is cleared
  and, unless the scenario is in \<^verbatim>\<open>completedScenarios\<close>, it is added there, the
  notification is shown and the cleanup is scheduled. \<^verbatim>\<open>loadScenarios(false)\<close> only
  starts a request at this point.
\<close>

definition poll_response ::
  "string \<Rightarrow> string option \<Rightarrow> ExecutionStatusInfo option \<Rightarrow> Scenarios_state \<Rightarrow> Scenarios_state" where
  "poll_response scenarioId scenarioName response st =
     (case response of
        None \<Rightarrow> st
      | Some info \<Rightarrow>
          (let st1 = st\<lparr>executionStatuses := (executionStatuses st)(scenarioId \<mapsto> info)\<rparr>
           in if terminal_status (status info) then
                (let st2 = st1\<lparr>pollingIntervals := pollingIntervals st1 - {scenarioId}\<rparr>
                 in if scenarioId \<notin> completedScenarios st2 then
                      st2\<lparr>completedScenarios := insert scenarioId (completedScenarios st2),
                          toasts := toasts st2 @
                            [terminal_toast (toast_name scenarioName (scenarios st2) scenarioId) info],
                          timeouts := timeouts st2 @ [(3000, scenarioId)]\<rparr>
                    else st2)
              else st1))"

text \<open>
  \<^verbatim>\<open>startPolling\<close> of the list (Scenarios.tsx, 173-232): an existing interval of the
  scenario is cleared, a first status request is sent, and the new interval is stored.
\<close>

definition startPolling :: "string \<Rightarrow> Scenarios_state \<Rightarrow> Scenarios_state" where
  "startPolling scenarioId st =
     (let st1 = st\<lparr>pollingIntervals := pollingIntervals st - {scenarioId}\<rparr>
      in st1\<lparr>pollingIntervals := insert scenarioId (pollingIntervals st1)\<rparr>)"

text \<open>
  \<^verbatim>\<open>handleExecuteScenario\<close> of the list (Scenarios.tsx, 235-268). Before the request
  is sent the scenario leaves \<^verbatim>\<open>completedScenarios\<close> and its status is set to running
  (the fields that the object literal leaves out are \<open>0\<close> or \<open>None\<close> here). When the
  request succeeds polling starts; when it fails the status entry is deleted and the
  error detail of the response, if there is one, is shown.
\<close>

definition handleExecuteScenario_begin :: "string \<Rightarrow> Scenarios_state \<Rightarrow> Scenarios_state" where
  "handleExecuteScenario_begin scenarioId st =
     (let totalSteps =
            (case find (\<lambda>s. scenario_id s = scenarioId) (scenarios st) of
               Some s \<Rightarrow> steps_length s
             | None \<Rightarrow> 0);
          st1 = st\<lparr>completedScenarios := completedScenarios st - {scenarioId}\<rparr>
      in st1\<lparr>executionStatuses := (executionStatuses st1)(scenarioId \<mapsto>
           \<lparr>status = ''running'', current_model = Some [], current_model_index = None,
            total_models = None, current_step = 0, total_steps = totalSteps,
            steps_processed = 0, steps_skipped = 0, steps_failed = 0,
            models_completed = None, status_error = None\<rparr>)\<rparr>)"

datatype execute_outcome = Accepted | Rejected "string option"

definition handleExecuteScenario_settled ::
  "string \<Rightarrow> string \<Rightarrow> execute_outcome \<Rightarrow> Scenarios_state \<Rightarrow> Scenarios_state" where
  "handleExecuteScenario_settled scenarioId scenarioName outcome st =
     (case outcome of
        Accepted \<Rightarrow>
          startPolling scenarioId
            (st\<lparr>toasts := toasts st @ [toast_info (''Executing '' @ quoted scenarioName @ ''...'')]\<rparr>)
      | Rejected detail \<Rightarrow>
          st\<lparr>executionStatuses := (executionStatuses st)(scenarioId := None),
             toasts := toasts st @
               [toast_error (case detail of
                               Some d \<Rightarrow> (if d \<noteq> [] then d else ''Failed to start execution'')
                             | None \<Rightarrow> ''Failed to start execution'')]\<rparr>)"

text \<open>
  What happens in the scenario list, one callback at a time: a status response arrives,
  a pending timeout fires and runs its cleanup, the user starts an execution, the
  execute request settles, or polling starts for a scenario found running or queued.
\<close>

datatype list_event =
    PollResponse string "string option" "ExecutionStatusInfo option"
  | TimeoutFires nat
  | ExecuteClicked string
  | ExecuteSettled string string execute_outcome
  | StartPolling string "string option"

fun list_step :: "Scenarios_state \<Rightarrow> list_event \<Rightarrow> Scenarios_state" where
  "list_step st (PollResponse scenarioId scenarioName response) =
     poll_response scenarioId scenarioName response st"
| "list_step st (TimeoutFires k) =
     (if k < length (timeouts st) then
        clear_status (snd (timeouts st ! k))
          (st\<lparr>timeouts := take k (timeouts st) @ drop (Suc k) (timeouts st)\<rparr>)
      else st)"
| "list_step st (ExecuteClicked scenarioId) = handleExecuteScenario_begin scenarioId st"
| "list_step st (ExecuteSettled scenarioId scenarioName outcome) =
     handleExecuteScenario_settled scenarioId scenarioName outcome st"
| "list_step st (StartPolling scenarioId scenarioName) = startPolling scenarioId st"

definition list_run :: "Scenarios_state \<Rightarrow> list_event list \<Rightarrow> Scenarios_state" where
  "list_run st evs = foldl list_step st evs"

definition Scenarios_initial :: "Scenario_head list \<Rightarrow> Scenarios_state" where
  "Scenarios_initial scs =
     \<lparr>executionStatuses = Map.empty, scenarios = scs, pollingIntervals = {},
      completedScenarios = {}, toasts = [], timeouts = []\<rparr>"

text \<open>
  Every scenario that is in \<^verbatim>\<open>completedScenarios\<close> has its cleanup pending.
\<close>

definition cleanup_pending :: "Scenarios_state \<Rightarrow> bool" where
  "cleanup_pending st \<longleftrightarrow>
     (\<forall>scenarioId \<in> completedScenarios st. (3000, scenarioId) \<in> set (timeouts st))"

text \<open>
  The scenario detail view: the state that its \<^verbatim>\<open>startPolling\<close> (Scenarios.tsx,
  1081-1122) touches. \<^verbatim>\<open>pollingInterval\<close> tells whether the ref holds an interval,
  \<open>status_requests\<close> counts the status requests that were sent and have not settled,
  \<open>comparison_requests\<close> the calls of \<^verbatim>\<open>loadComparison\<close>, and a pending timeout is
  its delay.
\<close>

record Detail_state =
  executionStatus :: "ExecutionStatusInfo option"
  pollingInterval :: bool
  executing :: bool
  rerunningStepId :: "string option"
  loadingComparison :: bool
  comparison_requests :: nat
  status_requests :: nat
  detail_toasts :: "toast list"
  detail_timeouts :: "nat list"

text \<open>\<^verbatim>\<open>poll\<close> up to its \<^verbatim>\<open>await\<close>: the status request is sent.\<close>

definition detail_poll_request :: "Detail_state \<Rightarrow> Detail_state" where
  "detail_poll_request st = st\<lparr>status_requests := Suc (status_requests st)\<rparr>"

text \<open>
  \<^verbatim>\<open>poll\<close> from the point where the request settles. \<^verbatim>\<open>onUpdate\<close> hands the
  scenario of the response to the parent component and changes nothing here.
\<close>

definition detail_poll_response :: "ExecutionStatusInfo option \<Rightarrow> Detail_state \<Rightarrow> Detail_state" where
  "detail_poll_response response st =
     (case response of
        None \<Rightarrow> st
      | Some info \<Rightarrow>
          (let st1 = st\<lparr>executionStatus := Some info\<rparr>
           in if terminal_status (status info) then
                (let st2 = st1\<lparr>pollingInterval := False, executing := False,
                              rerunningStepId := None\<rparr>
                 in if status info = ''completed'' then
                      st2\<lparr>detail_toasts := detail_toasts st2 @
                            [toast_success ''Execution completed successfully!''],
                          loadingComparison := True,
                          comparison_requests := Suc (comparison_requests st2),
                          detail_timeouts := detail_timeouts st2 @ [1500]\<rparr>
                    else if status info = ''cancelled'' then
                      st2\<lparr>detail_toasts := detail_toasts st2 @ [toast_info ''Execution cancelled'']\<rparr>
                    else
                      st2\<lparr>detail_toasts := detail_toasts st2 @
                            [toast_error (''Execution failed: '' @
                               (case status_error info of
                                  Some e \<Rightarrow> (if e \<noteq> [] then e else ''Unknown error'')
                                | None \<Rightarrow> ''Unknown error''))]\<rparr>)
              else st1))"

text \<open>
  The callbacks of the detail view: \<^verbatim>\<open>startPolling\<close> (an interval that exists is
  cleared, a request is sent at once, the 1000 ms interval is set), a tick of the
  interval (a request is sent, whether or not the previous one has settled), and the
  settling of a request that is under way.
\<close>

datatype detail_event =
    DetailStartPolling
  | IntervalTick
  | StatusSettles "ExecutionStatusInfo option"

fun detail_step :: "Detail_state \<Rightarrow> detail_event \<Rightarrow> Detail_state" where
  "detail_step st DetailStartPolling =
     (detail_poll_request (st\<lparr>pollingInterval := False\<rparr>))\<lparr>pollingInterval := True\<rparr>"
| "detail_step st IntervalTick =
     (if pollingInterval st then detail_poll_request st else st)"
| "detail_step st (StatusSettles response) =
     (if status_requests st = 0 then st
      else detail_poll_response response (st\<lparr>status_requests := status_requests st - 1\<rparr>))"

definition detail_run :: "Detail_state \<Rightarrow> detail_event list \<Rightarrow> Detail_state" where
  "detail_run st evs = foldl detail_step st evs"

definition Detail_initial :: Detail_state where
  "Detail_initial =
     \<lparr>executionStatus = None, pollingInterval = False, executing = False,
      rerunningStepId = None, loadingComparison = False, comparison_requests = 0,
      status_requests = 0, detail_toasts = [], detail_timeouts = []\<rparr>"

text \<open>A status with the given phase and error, at step 0 of 1.\<close>

definition mk_status :: "string \<Rightarrow> string option \<Rightarrow> ExecutionStatusInfo" where
  "mk_status s e =
     \<lparr>status = s, current_model = None, current_model_index = None, total_models = None,
      current_step = 0, total_steps = 1, steps_processed = 0, steps_skipped = 0,
      steps_failed = 0, models_completed = None, status_error = e\<rparr>"


text \<open>
  Two states of the scenario list for the examples: two executions started, and the
  first of them seen completed by a poll.
\<close>

definition two_running :: Scenarios_state where
  "two_running = list_run (Scenarios_initial []) [ExecuteClicked ''s1'', ExecuteClicked ''s2'']"

definition s1_completed :: Scenarios_state where
  "s1_completed =
     poll_response ''s1'' (Some ''One'') (Some (mk_status ''completed'' None)) two_running"


section \<open>The server side, from the specification\<close>






text \<open>
  Modelled from the spec: the execution status store of the server and its state machine
  (sections 3, 4.2 and 7) are missing from the sources, which hold only the client of
  the REST interface. A status entry has one of the five states of the spec and the
  progress counters; the store has at most one entry for a scenario id. Next to the
  store, \<open>in_flight\<close> lists the executions that were started and have not reached a
  terminal state, one element for each.
\<close>

datatype exec_state = Pending | Running | Completed | Failed | Cancelled

record status_entry =
  entry_status :: exec_state
  entry_total_models :: nat
  entry_total_steps :: nat
  entry_current_model_index :: nat
  entry_current_step :: nat
  entry_steps_processed :: nat

record server_state =
  store :: "string \<rightharpoonup> status_entry"
  in_flight :: "string list"

datatype start_error = AlreadyRunning

definition is_terminal :: "exec_state \<Rightarrow> bool" where
  "is_terminal s \<longleftrightarrow> s = Completed \<or> s = Failed \<or> s = Cancelled"

text \<open>
  Modelled from the spec: start execution (section 4.2). An entry with status running
  rejects the request; without an entry, or with an entry in another state, a new entry
  with status running is created from the snapshot of the scenario, and the execution
  is in flight.
\<close>

definition start_execution ::
  "string \<Rightarrow> nat \<Rightarrow> nat \<Rightarrow> server_state \<Rightarrow> start_error + server_state" where
  "start_execution sid n_models n_steps s =
     (case store s sid of
        Some e \<Rightarrow>
          (if entry_status e = Running then Inl AlreadyRunning
           else Inr (s\<lparr>store := (store s)(sid \<mapsto>
                  \<lparr>entry_status = Running, entry_total_models = n_models,
                   entry_total_steps = n_steps, entry_current_model_index = 0,
                   entry_current_step = 0, entry_steps_processed = 0\<rparr>),
                  in_flight := sid # in_flight s\<rparr>))
      | None \<Rightarrow>
          Inr (s\<lparr>store := (store s)(sid \<mapsto>
                 \<lparr>entry_status = Running, entry_total_models = n_models,
                  entry_total_steps = n_steps, entry_current_model_index = 0,
                  entry_current_step = 0, entry_steps_processed = 0\<rparr>),
                 in_flight := sid # in_flight s\<rparr>))"

text \<open>
  Modelled from the spec: the other transitions of section 4.2. A scenario without a
  live entry can be queued (pending); the orchestrator advances the counters of a
  running entry; a running execution ends in a terminal state and is no longer in
  flight; a terminal entry is removed by the cleanup. A rejected start (section 7)
  reports the error and leaves the state as it is.
\<close>

datatype server_event =
    Start string nat nat
  | Enqueue string
  | Progress string
  | Finish string exec_state
  | Cleanup string

fun server_step :: "server_state \<Rightarrow> server_event \<Rightarrow> server_state" where
  "server_step s (Start sid n_models n_steps) =
     (case start_execution sid n_models n_steps s of
        Inl err \<Rightarrow> s
      | Inr s' \<Rightarrow> s')"
| "server_step s (Enqueue sid) =
     (case store s sid of
        Some e \<Rightarrow>
          (if is_terminal (entry_status e) then
             s\<lparr>store := (store s)(sid \<mapsto> e\<lparr>entry_status := Pending\<rparr>)\<rparr>
           else s)
      | None \<Rightarrow>
          s\<lparr>store := (store s)(sid \<mapsto>
              \<lparr>entry_status = Pending, entry_total_models = 0, entry_total_steps = 0,
               entry_current_model_index = 0, entry_current_step = 0,
               entry_steps_processed = 0\<rparr>)\<rparr>)"
| "server_step s (Progress sid) =
     (case store s sid of
        Some e \<Rightarrow>
          (if entry_status e = Running then
             s\<lparr>store := (store s)(sid \<mapsto>
                 e\<lparr>entry_current_step := Suc (entry_current_step e),
                   entry_steps_processed := Suc (entry_steps_processed e)\<rparr>)\<rparr>
           else s)
      | None \<Rightarrow> s)"
| "server_step s (Finish sid t) =
     (case store s sid of
        Some e \<Rightarrow>
          (if entry_status e = Running \<and> is_terminal t then
             s\<lparr>store := (store s)(sid \<mapsto> e\<lparr>entry_status := t\<rparr>),
               in_flight := remove1 sid (in_flight s)\<rparr>
           else s)
      | None \<Rightarrow> s)"
| "server_step s (Cleanup sid) =
     (case store s sid of
        Some e \<Rightarrow>
          (if is_terminal (entry_status e) then s\<lparr>store := (store s)(sid := None)\<rparr> else s)
      | None \<Rightarrow> s)"

definition server_run :: "server_state \<Rightarrow> server_event list \<Rightarrow> server_state" where
  "server_run s evs = foldl server_step s evs"

definition server_initial :: server_state where
  "server_initial = \<lparr>store = Map.empty, in_flight = []\<rparr>"

text \<open>Every execution in flight has a running entry, and no scenario has two.\<close>

definition single_flight :: "server_state \<Rightarrow> bool" where
  "single_flight s \<longleftrightarrow>
     distinct (in_flight s) \<and>
     (\<forall>sid \<in> set (in_flight s).
        case store s sid of Some e \<Rightarrow> entry_status e = Running | None \<Rightarrow> False)"


section \<open>Properties of the client-side helpers\<close>

lemma find_first_occurrence:
  assumes "\<forall>g\<in>set pre. \<not> P g" and "P m"
  shows "find P (pre @ m # post) = Some m"
  using assms by (induction pre) auto

lemma find_none_iff: "find P xs = None \<longleftrightarrow> (\<forall>x\<in>set xs. \<not> P x)"
  by (induction xs) auto

text \<open>
  C1. For a predicted item \<open>p\<close> and a ground-truth cart \<open>G\<close>, \<^verbatim>\<open>getMismatchDetail\<close>
  answers \<open>extra_item\<close> when no item of \<open>G\<close> has the product id of \<open>p\<close>. Otherwise let
  \<open>m\<close> be the ground-truth item with that product id (the first one, should \<open>G\<close> repeat
  the id): the answer is \<open>exact_match\<close> when quantity and unit agree,
  \<open>quantity_mismatch\<close> with the expected quantity of \<open>m\<close> and the actual quantity of \<open>p\<close>
  when only the quantity differs, \<open>unit_mismatch\<close> when only the unit differs, and
  \<open>quantity_and_unit_mismatch\<close> when both differ.
\<close>

theorem getMismatchDetail_classification:
  "((\<forall>g\<in>set G. product_id g \<noteq> product_id p) \<longrightarrow>
      type (getMismatchDetail p G) = extra_item) \<and>
   (G = pre @ m # post \<and> (\<forall>g\<in>set pre. product_id g \<noteq> product_id p) \<and>
    product_id m = product_id p \<longrightarrow>
      (quantity m = quantity p \<and> unit m = unit p \<longrightarrow>
         type (getMismatchDetail p G) = exact_match) \<and>
      (quantity m \<noteq> quantity p \<and> unit m = unit p \<longrightarrow>
         type (getMismatchDetail p G) = quantity_mismatch \<and>
         expectedQuantity (getMismatchDetail p G) = Some (quantity m) \<and>
         actualQuantity (getMismatchDetail p G) = Some (quantity p)) \<and>
      (quantity m = quantity p \<and> unit m \<noteq> unit p \<longrightarrow>
         type (getMismatchDetail p G) = unit_mismatch) \<and>
      (quantity m \<noteq> quantity p \<and> unit m \<noteq> unit p \<longrightarrow>
         type (getMismatchDetail p G) = quantity_and_unit_mismatch))"
proof (intro conjI impI)
  assume "\<forall>g\<in>set G. product_id g \<noteq> product_id p"
  then have "find (\<lambda>gt. product_id gt = product_id p) G = None"
    by (simp add: find_none_iff)
  then show "type (getMismatchDetail p G) = extra_item"
    by (simp add: getMismatchDetail_def)
next
  assume h: "G = pre @ m # post \<and> (\<forall>g\<in>set pre. product_id g \<noteq> product_id p) \<and>
    product_id m = product_id p"
  then have found: "find (\<lambda>gt. product_id gt = product_id p) G = Some m"
    using find_first_occurrence [of pre "\<lambda>gt. product_id gt = product_id p" m post]
    by simp
  {
    assume "quantity m = quantity p \<and> unit m = unit p"
    with found show "type (getMismatchDetail p G) = exact_match"
      by (simp add: getMismatchDetail_def)
  next
    assume d: "quantity m \<noteq> quantity p \<and> unit m = unit p"
    with found show "type (getMismatchDetail p G) = quantity_mismatch"
      by (simp add: getMismatchDetail_def)
    from d found show "expectedQuantity (getMismatchDetail p G) = Some (quantity m)"
      by (simp add: getMismatchDetail_def)
    from d found show "actualQuantity (getMismatchDetail p G) = Some (quantity p)"
      by (simp add: getMismatchDetail_def)
  next
    assume "quantity m = quantity p \<and> unit m \<noteq> unit p"
    with found show "type (getMismatchDetail p G) = unit_mismatch"
      by (simp add: getMismatchDetail_def)
  next
    assume "quantity m \<noteq> quantity p \<and> unit m \<noteq> unit p"
    with found show "type (getMismatchDetail p G) = quantity_and_unit_mismatch"
      by (simp add: getMismatchDetail_def)
  }
qed

text \<open>
  The five cases at concrete carts: the spec's example (ground truth \<open>A, 2, box\<close>,
  predicted \<open>A, 3, box\<close>) and one input for each of the other answers.
\<close>

theorem getMismatchDetail_classification_witness:
  "type (getMismatchDetail (mk_item ''C'' 1 ''box'') [mk_item ''A'' 1 ''box'', mk_item ''B'' 1 ''box''])
     = extra_item \<and>
   type (getMismatchDetail (mk_item ''A'' 2 ''box'') [mk_item ''A'' 2 ''box'']) = exact_match \<and>
   type (getMismatchDetail (mk_item ''A'' 3 ''box'') [mk_item ''A'' 2 ''box'']) = quantity_mismatch \<and>
   expectedQuantity (getMismatchDetail (mk_item ''A'' 3 ''box'') [mk_item ''A'' 2 ''box'']) = Some 2 \<and>
   actualQuantity (getMismatchDetail (mk_item ''A'' 3 ''box'') [mk_item ''A'' 2 ''box'']) = Some 3 \<and>
   type (getMismatchDetail (mk_item ''A'' 2 ''kg'') [mk_item ''B'' 1 ''box'', mk_item ''A'' 2 ''box''])
     = unit_mismatch \<and>
   type (getMismatchDetail (mk_item ''A'' 3 ''kg'') [mk_item ''A'' 2 ''box''])
     = quantity_and_unit_mismatch"
  using
    getMismatchDetail_classification
      [of "[mk_item ''A'' 1 ''box'', mk_item ''B'' 1 ''box'']" "mk_item ''C'' 1 ''box''"]
    getMismatchDetail_classification
      [of "[mk_item ''A'' 2 ''box'']" "mk_item ''A'' 2 ''box''" "[]" "mk_item ''A'' 2 ''box''" "[]"]
    getMismatchDetail_classification
      [of "[mk_item ''A'' 2 ''box'']" "mk_item ''A'' 3 ''box''" "[]" "mk_item ''A'' 2 ''box''" "[]"]
    getMismatchDetail_classification
      [of "[mk_item ''B'' 1 ''box'', mk_item ''A'' 2 ''box'']" "mk_item ''A'' 2 ''kg''"
          "[mk_item ''B'' 1 ''box'']" "mk_item ''A'' 2 ''box''" "[]"]
    getMismatchDetail_classification
      [of "[mk_item ''A'' 2 ''box'']" "mk_item ''A'' 3 ''kg''" "[]" "mk_item ''A'' 2 ''box''" "[]"]
  by (simp add: mk_item_def)

text \<open>
  C5. \<^verbatim>\<open>getMissingItems\<close> returns exactly the ground-truth items whose product id
  occurs in no predicted item, in the order of the ground-truth cart.
\<close>

theorem getMissingItems_exact:
  "getMissingItems G P = filter (\<lambda>g. product_id g \<notin> product_id ` set P) G"
proof -
  have some_iff: "list_ex (\<lambda>pred. product_id pred = product_id g) P
          = (product_id g \<in> product_id ` set P)" for g
    by (force simp: list_ex_iff)
  show ?thesis
    by (simp only: getMissingItems_def some_iff)
qed

text \<open>
  The spec's example: ground truth \<open>A, B\<close> and predicted \<open>A, C\<close> leave \<open>B\<close> missing.
\<close>

theorem getMissingItems_exact_witness:
  "getMissingItems [mk_item ''A'' 1 ''box'', mk_item ''B'' 1 ''box'']
     [mk_item ''A'' 1 ''box'', mk_item ''C'' 1 ''box''] = [mk_item ''B'' 1 ''box'']"
  using getMissingItems_exact
    [of "[mk_item ''A'' 1 ''box'', mk_item ''B'' 1 ''box'']"
        "[mk_item ''A'' 1 ''box'', mk_item ''C'' 1 ''box'']"]
  by (simp add: mk_item_def)

subsection \<open>The exact-match flag\<close>

lemma product_id_item_key: "product_id c = fst (item_key c)"
  by (simp add: item_key_def)

lemma cartItemsMatch_item_key: "cartItemsMatch gt pred \<longleftrightarrow> item_key gt = item_key pred"
  by (auto simp: cartItemsMatch_def item_key_def)

lemma distinct_item_keys:
  assumes "distinct (map product_id G)"
  shows "distinct (map item_key G)"
proof -
  have "map product_id G = map fst (map item_key G)"
    by (simp add: product_id_item_key)
  with assms show ?thesis
    by (simp add: distinct_map [of fst "map item_key G"] del: map_map)
qed

lemma isExactMatch_keys:
  "isExactMatch G P \<longleftrightarrow>
     length G = length P \<and> set (map item_key G) \<subseteq> set (map item_key P)"
  by (auto simp: isExactMatch_def list_all_iff list_ex_iff cartItemsMatch_item_key)

lemma mset_eq_of_distinct_subset:
  assumes dx: "distinct xs" and len: "length xs = length ys" and sub: "set xs \<subseteq> set ys"
  shows "mset ys = mset xs"
proof -
  have "card (set ys) \<le> length ys"
    by (rule card_length)
  also have "\<dots> = card (set xs)"
    using dx len by (simp add: distinct_card)
  finally have le: "card (set ys) \<le> card (set xs)" .
  have seteq: "set xs = set ys"
    using sub le by (intro card_seteq) simp_all
  have "card (set ys) = length ys"
    using dx len seteq by (simp add: distinct_card [symmetric])
  then have dy: "distinct ys"
    by (rule card_distinct)
  from dx dy seteq show ?thesis
    by (simp add: set_eq_iff_mset_eq_distinct [symmetric])
qed

text \<open>
  C2, as the claim has it, fails: with the ground truth \<open>A, 2, box\<close> and a predicted
  cart that lists this item twice, every ground-truth item has an exactly matching
  predicted item, every predicted item is an exact match, nothing is missing, and the two
  carts are equal as sets of (product id, quantity, unit); the flag is false, since the
  lengths differ.
\<close>

theorem isExactMatch_set_counterexample:
  "distinct (map product_id [mk_item ''A'' 2 ''box'']) \<and>
   set (map item_key [mk_item ''A'' 2 ''box'', mk_item ''A'' 2 ''box'']) = set (map item_key [mk_item ''A'' 2 ''box'']) \<and>
   type (getMismatchDetail (mk_item ''A'' 2 ''box'') [mk_item ''A'' 2 ''box'']) = exact_match \<and>
   getMissingItems [mk_item ''A'' 2 ''box''] [mk_item ''A'' 2 ''box'', mk_item ''A'' 2 ''box''] = [] \<and>
   \<not> isExactMatch [mk_item ''A'' 2 ''box''] [mk_item ''A'' 2 ''box'', mk_item ''A'' 2 ''box'']"
  by (simp add: isExactMatch_def mk_item_def getMismatchDetail_def getMissingItems_def
      item_key_def)

text \<open>
  C2, amended. For a ground-truth cart with pairwise distinct product ids and any
  predicted cart, the flag is true if and only if the two carts are equal as multisets
  of (product id, quantity, unit): every ground-truth item has an exactly matching
  predicted item, no predicted item is extra, and no predicted item is repeated. The
  order of the items plays no part.
\<close>

theorem isExactMatch_multiset:
  assumes "distinct (map product_id G)"
  shows "isExactMatch G P \<longleftrightarrow> mset (map item_key P) = mset (map item_key G)"
proof
  assume "isExactMatch G P"
  then have len: "length (map item_key G) = length (map item_key P)"
    and sub: "set (map item_key G) \<subseteq> set (map item_key P)"
    by (simp_all add: isExactMatch_keys)
  have dG: "distinct (map item_key G)"
    using assms by (rule distinct_item_keys)
  from dG len sub show "mset (map item_key P) = mset (map item_key G)"
    by (rule mset_eq_of_distinct_subset)
next
  assume eq: "mset (map item_key P) = mset (map item_key G)"
  have "length G = size (mset (map item_key G))"
    by simp
  also have "\<dots> = size (mset (map item_key P))"
    by (simp only: eq)
  also have "\<dots> = length P"
    by simp
  finally have len: "length G = length P" .
  have "set (map item_key G) = set_mset (mset (map item_key G))"
    by (simp only: set_mset_mset)
  also have "\<dots> = set_mset (mset (map item_key P))"
    by (simp only: eq)
  also have "\<dots> = set (map item_key P)"
    by (simp only: set_mset_mset)
  finally have "set (map item_key G) \<subseteq> set (map item_key P)"
    by simp
  with len show "isExactMatch G P"
    by (simp add: isExactMatch_keys)
qed

theorem isExactMatch_multiset_witness:
  "distinct (map product_id [mk_item ''A'' 1 ''box'', mk_item ''B'' 2 ''kg'']) \<and>
   isExactMatch [mk_item ''A'' 1 ''box'', mk_item ''B'' 2 ''kg'']
     [mk_item ''B'' 2 ''kg'', mk_item ''A'' 1 ''box'']"
  using isExactMatch_multiset
    [of "[mk_item ''A'' 1 ''box'', mk_item ''B'' 2 ''kg'']"
        "[mk_item ''B'' 2 ''kg'', mk_item ''A'' 1 ''box'']"]
  by (simp add: mk_item_def item_key_def)

subsection \<open>The metrics of the cart comparison\<close>















subsection \<open>The cost of a step\<close>





subsection \<open>The ids of a batch request\<close>

lemma distinct_Set_add: "distinct s \<Longrightarrow> distinct (Set_add x s)"
  by (simp add: Set_add_def Set_has_def)

lemma distinct_Set_delete: "distinct s \<Longrightarrow> distinct (Set_delete x s)"
  by (simp add: Set_delete_def)

lemma distinct_fold_Set_add: "distinct s \<Longrightarrow> distinct (fold Set_add xs s)"
  by (induction xs arbitrary: s) (simp_all add: distinct_Set_add)

lemma distinct_Set_new: "distinct (Set_new xs)"
  by (simp add: Set_new_def Set_empty_def distinct_fold_Set_add)

lemma fold_Set_add_distinct_id: "distinct (s @ xs) \<Longrightarrow> fold Set_add xs s = s @ xs"
  by (induction xs arbitrary: s) (auto simp: Set_add_def Set_has_def)

lemma Set_new_copy: "distinct s \<Longrightarrow> Set_new (Array_from s) = s"
  using fold_Set_add_distinct_id [of "[]" s] by (simp add: Set_new_def Set_empty_def Array_from_def)

lemma distinct_toggle: "distinct (toggleScenarioSelection x s)"
  by (simp add: toggleScenarioSelection_def Let_def distinct_Set_add distinct_Set_delete distinct_Set_new)

lemma selection_reachable_distinct: "selection_reachable s \<Longrightarrow> distinct s"
proof (induction rule: selection_reachable.induct)
  case initial
  show ?case by (simp add: Set_empty_def)
next
  case (toggle s scenarioId)
  show ?case by (rule distinct_toggle)
next
  case (select_all s allIds)
  show ?case by (simp add: selectAllScenarios_def distinct_Set_new)
next
  case (clear s)
  show ?case by (simp add: clearSelection_def Set_empty_def)
qed

lemma set_toggle:
  assumes "distinct s"
  shows "set (toggleScenarioSelection x s) = (if x \<in> set s then set s - {x} else insert x (set s))"
  using assms
  by (auto simp: toggleScenarioSelection_def Let_def Set_new_copy Set_has_def Set_delete_def Set_add_def)

text \<open>
  C9. For every selection the scenario list can hold, the ids in a batch-execute request
  are pairwise distinct (and are the selected ids), and toggling a scenario removes
  exactly this id when it was selected and adds exactly this id otherwise.
\<close>

theorem batch_request_ids_distinct:
  assumes "selection_reachable selectedScenarios"
  shows "(handleBatchExecute selectedScenarios = Inr ids \<longrightarrow> distinct ids \<and> set ids = set selectedScenarios) \<and>
         set (toggleScenarioSelection scenarioId selectedScenarios) =
           (if scenarioId \<in> set selectedScenarios then set selectedScenarios - {scenarioId}
            else insert scenarioId (set selectedScenarios))"
proof -
  have d: "distinct selectedScenarios"
    using assms by (rule selection_reachable_distinct)
  then have "handleBatchExecute selectedScenarios = Inr ids \<longrightarrow> distinct ids \<and> set ids = set selectedScenarios"
    by (auto simp: handleBatchExecute_def Array_from_def split: if_splits)
  with set_toggle [OF d] show ?thesis by simp
qed

text \<open>
  Select all of \<open>a, b, a, c\<close>, then toggle \<open>b\<close>: the request carries \<open>a, c\<close>.
\<close>

theorem batch_request_ids_distinct_witness:
  "selection_reachable (toggleScenarioSelection ''b'' (selectAllScenarios [''a'', ''b'', ''a'', ''c''])) \<and>
   handleBatchExecute (toggleScenarioSelection ''b'' (selectAllScenarios [''a'', ''b'', ''a'', ''c'']))
     = Inr [''a'', ''c''] \<and>
   distinct [''a'', ''c'']"
proof -
  have reach: "selection_reachable
      (toggleScenarioSelection ''b'' (selectAllScenarios [''a'', ''b'', ''a'', ''c'']))"
    by (rule selection_reachable.toggle
          [OF selection_reachable.select_all [OF selection_reachable.initial]])
  have val: "handleBatchExecute (toggleScenarioSelection ''b'' (selectAllScenarios [''a'', ''b'', ''a'', ''c'']))
     = Inr [''a'', ''c'']"
    by (simp add: handleBatchExecute_def toggleScenarioSelection_def selectAllScenarios_def
        Set_new_def Set_add_def Set_has_def Set_delete_def Set_empty_def Set_size_def Array_from_def)
  from reach val batch_request_ids_distinct [OF reach, of "[''a'', ''c'']" "''a''"]
  show ?thesis by simp
qed

subsection \<open>The declared status type\<close>

text \<open>
  C6. The claim gives the execution status five values, \<^verbatim>\<open>cancelled\<close> among them. The
  type \<^verbatim>\<open>ExecutionStatus\<close> that the sources declare has the four values pending,
  running, completed and failed, and none of them is the string \<^verbatim>\<open>cancelled\<close>; the
  pollers nevertheless test for this string and treat it as terminal.
\<close>

theorem ExecutionStatus_without_cancelled:
  "(UNIV :: ExecutionStatus set) = {pending, running, completed, failed} \<and>
   ''cancelled'' \<notin> ExecutionStatus_literal ` UNIV \<and>
   terminal_status ''cancelled''"
proof -
  have u: "(UNIV :: ExecutionStatus set) = {pending, running, completed, failed}"
  proof
    show "(UNIV :: ExecutionStatus set) \<subseteq> {pending, running, completed, failed}"
    proof
      fix x :: ExecutionStatus
      show "x \<in> {pending, running, completed, failed}" by (cases x) simp_all
    qed
  qed simp
  have "''cancelled'' \<notin> ExecutionStatus_literal ` {pending, running, completed, failed}"
    by simp
  with u show ?thesis
    by (simp add: terminal_status_def)
qed



subsection \<open>Notifications of the two pollers\<close>

text \<open>
  In the scenario list a terminal response for a scenario that is already in
  \<^verbatim>\<open>completedScenarios\<close> shows nothing and schedules nothing, and a response clears
  the interval exactly when its status is terminal.
\<close>

lemma list_view_guard:
  assumes "scenarioId \<in> completedScenarios st"
  shows "toasts (poll_response scenarioId scenarioName response st) = toasts st \<and>
         timeouts (poll_response scenarioId scenarioName response st) = timeouts st"
  using assms by (simp add: poll_response_def Let_def split: option.splits)

lemma poll_response_stops_iff:
  "pollingIntervals (poll_response scenarioId scenarioName (Some info) st) =
     (if terminal_status (status info) then pollingIntervals st - {scenarioId}
      else pollingIntervals st)"
  by (simp add: poll_response_def Let_def)

lemma list_view_notifies_once:
  "toasts (list_run (Scenarios_initial [])
      [StartPolling ''s1'' None,
       PollResponse ''s1'' None (Some (mk_status ''completed'' None)),
       PollResponse ''s1'' None (Some (mk_status ''completed'' None))])
     = [toast_success (quoted ''Scenario'' @ '' completed successfully'')]"
  by (simp add: list_run_def Scenarios_initial_def startPolling_def poll_response_def
      mk_status_def terminal_status_def terminal_toast_def toast_name_def Let_def)


text \<open>
  C7. The claim has the terminal notification shown at most once for an execution
  attempt. In the detail view two status requests can be under way when the execution
  ends (the first request of \<^verbatim>\<open>startPolling\<close> and the one of the next tick of the
  interval); the first answer clears the interval, and each of the two answers shows the
  notification and loads the comparison.
\<close>

theorem detail_view_notifies_twice:
  "detail_toasts (detail_run Detail_initial
      [DetailStartPolling, IntervalTick,
       StatusSettles (Some (mk_status ''completed'' None)),
       StatusSettles (Some (mk_status ''completed'' None))])
     = [toast_success ''Execution completed successfully!'',
        toast_success ''Execution completed successfully!''] \<and>
   comparison_requests (detail_run Detail_initial
      [DetailStartPolling, IntervalTick,
       StatusSettles (Some (mk_status ''completed'' None)),
       StatusSettles (Some (mk_status ''completed'' None))]) = 2 \<and>
   pollingInterval (detail_run Detail_initial
      [DetailStartPolling, IntervalTick,
       StatusSettles (Some (mk_status ''completed'' None))]) = False"
  by (simp add: detail_run_def Detail_initial_def detail_poll_request_def
      detail_poll_response_def mk_status_def terminal_status_def)



subsection \<open>Cleanup of a status entry\<close>

lemma poll_response_completedScenarios:
  "completedScenarios (poll_response scenarioId scenarioName response st) =
     (case response of
        None \<Rightarrow> completedScenarios st
      | Some info \<Rightarrow>
          (if terminal_status (status info) then insert scenarioId (completedScenarios st)
           else completedScenarios st))"
  by (simp add: poll_response_def Let_def insert_absorb split: option.splits)

lemma poll_response_timeouts:
  "timeouts (poll_response scenarioId scenarioName response st) =
     (case response of
        None \<Rightarrow> timeouts st
      | Some info \<Rightarrow>
          (if terminal_status (status info) \<and> scenarioId \<notin> completedScenarios st
           then timeouts st @ [(3000, scenarioId)]
           else timeouts st))"
  by (simp add: poll_response_def Let_def split: option.splits)

lemma cleanup_pending_poll_response:
  assumes "cleanup_pending st"
  shows "cleanup_pending (poll_response scenarioId scenarioName response st)"
proof (cases response)
  case None
  with assms show ?thesis
    by (simp add: poll_response_def)
next
  case (Some info)
  show ?thesis
    unfolding cleanup_pending_def
  proof
    fix sid
    assume "sid \<in> completedScenarios (poll_response scenarioId scenarioName response st)"
    with Some have mem: "sid \<in> completedScenarios st \<or>
        (terminal_status (status info) \<and> sid = scenarioId)"
      by (auto simp: poll_response_completedScenarios split: if_splits)
    show "(3000, sid) \<in> set (timeouts (poll_response scenarioId scenarioName response st))"
    proof (cases "sid \<in> completedScenarios st")
      case True
      with assms have "(3000, sid) \<in> set (timeouts st)"
        by (simp add: cleanup_pending_def)
      with Some show ?thesis
        by (simp add: poll_response_timeouts)
    next
      case False
      with mem have "terminal_status (status info)" "sid = scenarioId"
        by simp_all
      with False Some show ?thesis
        by (simp add: poll_response_timeouts)
    qed
  qed
qed

lemma in_set_remove_nth:
  assumes "x \<in> set xs" "k < length xs" "x \<noteq> xs ! k"
  shows "x \<in> set (take k xs @ drop (Suc k) xs)"
proof -
  have "xs = take k xs @ xs ! k # drop (Suc k) xs"
    using assms(2) by (rule id_take_nth_drop)
  then have "set xs = set (take k xs) \<union> insert (xs ! k) (set (drop (Suc k) xs))"
    by (metis set_append list.simps(15))
  with assms(1,3) show ?thesis
    by auto
qed

lemma cleanup_pending_timeout:
  assumes "cleanup_pending st"
  shows "cleanup_pending (list_step st (TimeoutFires k))"
proof (cases "k < length (timeouts st)")
  case False
  with assms show ?thesis by simp
next
  case True
  show ?thesis
    unfolding cleanup_pending_def
  proof
    fix sid
    assume "sid \<in> completedScenarios (list_step st (TimeoutFires k))"
    with True have sid: "sid \<in> completedScenarios st" "sid \<noteq> snd (timeouts st ! k)"
      by (simp_all add: clear_status_def)
    from sid(1) assms have "(3000, sid) \<in> set (timeouts st)"
      by (simp add: cleanup_pending_def)
    moreover from sid(2) have "(3000, sid) \<noteq> timeouts st ! k"
      by (metis snd_conv)
    ultimately have "(3000, sid) \<in> set (take k (timeouts st) @ drop (Suc k) (timeouts st))"
      using True by (intro in_set_remove_nth)
    with True show "(3000, sid) \<in> set (timeouts (list_step st (TimeoutFires k)))"
      by (simp add: clear_status_def)
  qed
qed

lemma cleanup_pending_step:
  assumes "cleanup_pending st"
  shows "cleanup_pending (list_step st ev)"
proof (cases ev)
  case (PollResponse scenarioId scenarioName response)
  with assms show ?thesis by (simp add: cleanup_pending_poll_response)
next
  case (TimeoutFires k)
  with assms show ?thesis by (simp only: cleanup_pending_timeout)
next
  case (ExecuteClicked scenarioId)
  with assms show ?thesis
    by (auto simp: cleanup_pending_def handleExecuteScenario_begin_def Let_def)
next
  case (ExecuteSettled scenarioId scenarioName outcome)
  with assms show ?thesis
    by (auto simp: cleanup_pending_def handleExecuteScenario_settled_def startPolling_def Let_def
        split: execute_outcome.splits)
next
  case (StartPolling scenarioId scenarioName)
  with assms show ?thesis
    by (auto simp: cleanup_pending_def startPolling_def Let_def)
qed

lemma cleanup_pending_reachable:
  "cleanup_pending (list_run (Scenarios_initial scs) evs)"
proof -
  have "cleanup_pending st \<Longrightarrow> cleanup_pending (foldl list_step st evs)" for st
    by (induction evs arbitrary: st) (simp_all add: cleanup_pending_step)
  moreover have "cleanup_pending (Scenarios_initial scs)"
    by (simp add: cleanup_pending_def Scenarios_initial_def)
  ultimately show ?thesis
    by (simp add: list_run_def)
qed

text \<open>
  C8. When a poll of the scenario list sees a terminal status of a scenario, a cleanup
  with a delay of 3000 ms is pending for this scenario afterwards (it is scheduled now,
  or it was scheduled when the scenario entered \<^verbatim>\<open>completedScenarios\<close>). When such a
  timeout fires, the status entry of this scenario is removed and the scenario leaves
  \<^verbatim>\<open>completedScenarios\<close>; the status entry of every other scenario and its membership
  in \<^verbatim>\<open>completedScenarios\<close> stay as they were.
\<close>

theorem cleanup_after_terminal:
  "(terminal_status (status info) \<and> cleanup_pending st \<longrightarrow>
      (3000, scenarioId) \<in> set (timeouts (poll_response scenarioId scenarioName (Some info) st))) \<and>
   (k < length (timeouts st) \<and> timeouts st ! k = (3000, scenarioId) \<longrightarrow>
      executionStatuses (list_step st (TimeoutFires k)) scenarioId = None \<and>
      scenarioId \<notin> completedScenarios (list_step st (TimeoutFires k)) \<and>
      (\<forall>other. other \<noteq> scenarioId \<longrightarrow>
         executionStatuses (list_step st (TimeoutFires k)) other = executionStatuses st other \<and>
         (other \<in> completedScenarios (list_step st (TimeoutFires k))
            \<longleftrightarrow> other \<in> completedScenarios st)))"
proof (intro conjI impI allI)
  assume h: "terminal_status (status info) \<and> cleanup_pending st"
  show "(3000, scenarioId) \<in> set (timeouts (poll_response scenarioId scenarioName (Some info) st))"
  proof (cases "scenarioId \<in> completedScenarios st")
    case True
    with h have "(3000, scenarioId) \<in> set (timeouts st)"
      by (simp add: cleanup_pending_def)
    with True show ?thesis
      by (simp add: list_view_guard)
  next
    case False
    with h show ?thesis
      by (simp add: poll_response_def Let_def)
  qed
next
  assume "k < length (timeouts st) \<and> timeouts st ! k = (3000, scenarioId)"
  then show "executionStatuses (list_step st (TimeoutFires k)) scenarioId = None"
    by (simp add: clear_status_def)
next
  assume "k < length (timeouts st) \<and> timeouts st ! k = (3000, scenarioId)"
  then show "scenarioId \<notin> completedScenarios (list_step st (TimeoutFires k))"
    by (simp add: clear_status_def)
next
  fix other
  assume "k < length (timeouts st) \<and> timeouts st ! k = (3000, scenarioId)"
    and "other \<noteq> scenarioId"
  then show "executionStatuses (list_step st (TimeoutFires k)) other = executionStatuses st other"
    by (simp add: clear_status_def)
next
  fix other
  assume "k < length (timeouts st) \<and> timeouts st ! k = (3000, scenarioId)"
    and "other \<noteq> scenarioId"
  then show "other \<in> completedScenarios (list_step st (TimeoutFires k))
            \<longleftrightarrow> other \<in> completedScenarios st"
    by (simp add: clear_status_def)
qed


text \<open>
  Two scenarios are running, a poll sees the first completed: one timeout of 3000 ms for
  it is pending, and when it fires only the entry of the first scenario goes.
\<close>

theorem cleanup_after_terminal_witness:
  "terminal_status (status (mk_status ''completed'' None)) \<and>
   cleanup_pending two_running \<and>
   timeouts s1_completed = [(3000, ''s1'')] \<and>
   executionStatuses s1_completed ''s1'' = Some (mk_status ''completed'' None) \<and>
   executionStatuses (list_step s1_completed (TimeoutFires 0)) ''s1'' = None \<and>
   ''s1'' \<notin> completedScenarios (list_step s1_completed (TimeoutFires 0)) \<and>
   executionStatuses (list_step s1_completed (TimeoutFires 0)) ''s2''
     = executionStatuses s1_completed ''s2'' \<and>
   executionStatuses s1_completed ''s2'' \<noteq> None"
proof -
  have t: "terminal_status (status (mk_status ''completed'' None))"
    by (simp add: terminal_status_def mk_status_def)
  have c: "cleanup_pending two_running"
    by (simp add: cleanup_pending_def two_running_def list_run_def Scenarios_initial_def
        handleExecuteScenario_begin_def Let_def)
  have tm: "timeouts s1_completed = [(3000, ''s1'')]"
    by (simp add: s1_completed_def two_running_def list_run_def Scenarios_initial_def
        handleExecuteScenario_begin_def poll_response_def Let_def terminal_status_def mk_status_def)
  have e1: "executionStatuses s1_completed ''s1'' = Some (mk_status ''completed'' None)"
    by (simp add: s1_completed_def poll_response_def Let_def)
  have e2: "executionStatuses s1_completed ''s2'' \<noteq> None"
    by (simp add: s1_completed_def two_running_def list_run_def Scenarios_initial_def
        handleExecuteScenario_begin_def poll_response_def Let_def)
  have k: "0 < length (timeouts s1_completed) \<and> timeouts s1_completed ! 0 = (3000, ''s1'')"
    by (simp add: tm)
  have sched: "(3000, ''s1'') \<in> set (timeouts
      (poll_response ''s1'' (Some ''One'') (Some (mk_status ''completed'' None)) two_running))"
    by (rule mp [OF cleanup_after_terminal
          [where info = "mk_status ''completed'' None" and st = two_running
             and scenarioId = "''s1''" and scenarioName = "Some ''One''", THEN conjunct1]
          conjI [OF t c]])
  have fire: "executionStatuses (list_step s1_completed (TimeoutFires 0)) ''s1'' = None \<and>
      ''s1'' \<notin> completedScenarios (list_step s1_completed (TimeoutFires 0)) \<and>
      (\<forall>other. other \<noteq> ''s1'' \<longrightarrow>
         executionStatuses (list_step s1_completed (TimeoutFires 0)) other
           = executionStatuses s1_completed other \<and>
         (other \<in> completedScenarios (list_step s1_completed (TimeoutFires 0))
            \<longleftrightarrow> other \<in> completedScenarios s1_completed))"
    by (rule mp [OF cleanup_after_terminal
          [where st = s1_completed and k = 0 and scenarioId = "''s1''", THEN conjunct2] k])
  from fire have other: "executionStatuses (list_step s1_completed (TimeoutFires 0)) ''s2''
     = executionStatuses s1_completed ''s2''"
    by simp
  from t c tm e1 e2 fire other show ?thesis
    by simp
qed

subsection \<open>Single-flight execution on the server\<close>

lemma in_flight_running:
  assumes "single_flight s" "sid \<in> set (in_flight s)"
  shows "\<exists>e. store s sid = Some e \<and> entry_status e = Running"
  using assms by (auto simp: single_flight_def split: option.splits)

lemma not_running_not_in_flight:
  assumes "single_flight s" "store s sid = None \<or> (\<exists>e. store s sid = Some e \<and> entry_status e \<noteq> Running)"
  shows "sid \<notin> set (in_flight s)"
  using assms in_flight_running by fastforce

lemma single_flight_start:
  assumes inv: "single_flight s" and ok: "start_execution sid m n s = Inr s'"
  shows "single_flight s'"
proof -
  from ok have nr: "store s sid = None \<or> (\<exists>e. store s sid = Some e \<and> entry_status e \<noteq> Running)"
    by (auto simp: start_execution_def split: option.splits if_splits)
  with inv have fresh: "sid \<notin> set (in_flight s)"
    by (rule not_running_not_in_flight)
  from ok have s': "s' = s\<lparr>store := (store s)(sid \<mapsto>
                 \<lparr>entry_status = Running, entry_total_models = m,
                  entry_total_steps = n, entry_current_model_index = 0,
                  entry_current_step = 0, entry_steps_processed = 0\<rparr>),
                 in_flight := sid # in_flight s\<rparr>"
    by (auto simp: start_execution_def split: option.splits if_splits)
  from inv fresh show ?thesis
    unfolding s' by (auto simp: single_flight_def split: option.splits)
qed

lemma single_flight_step:
  assumes inv: "single_flight s"
  shows "single_flight (server_step s ev)"
proof (cases ev)
  case (Start sid m n)
  show ?thesis
  proof (cases "start_execution sid m n s")
    case (Inl err)
    with Start inv show ?thesis by simp
  next
    case (Inr s')
    with inv have "single_flight s'" by (rule single_flight_start)
    with Start Inr show ?thesis by simp
  qed
next
  case (Enqueue sid)
  show ?thesis
  proof (cases "store s sid = None \<or> (\<exists>e. store s sid = Some e \<and> is_terminal (entry_status e))")
    case True
    then have "store s sid = None \<or> (\<exists>e. store s sid = Some e \<and> entry_status e \<noteq> Running)"
      by (auto simp: is_terminal_def)
    with inv have "sid \<notin> set (in_flight s)"
      by (rule not_running_not_in_flight)
    with inv Enqueue show ?thesis
      by (auto simp: single_flight_def split: option.splits)
  next
    case False
    with Enqueue inv show ?thesis
      by (auto split: option.splits)
  qed
next
  case (Progress sid)
  with inv show ?thesis
    by (auto simp: single_flight_def split: option.splits)
next
  case (Finish sid t)
  with inv show ?thesis
    by (auto simp: single_flight_def split: option.splits)
next
  case (Cleanup sid)
  show ?thesis
  proof (cases "\<exists>e. store s sid = Some e \<and> is_terminal (entry_status e)")
    case True
    then have "store s sid = None \<or> (\<exists>e. store s sid = Some e \<and> entry_status e \<noteq> Running)"
      by (auto simp: is_terminal_def)
    with inv have "sid \<notin> set (in_flight s)"
      by (rule not_running_not_in_flight)
    with inv Cleanup show ?thesis
      by (auto simp: single_flight_def split: option.splits)
  next
    case False
    with Cleanup inv show ?thesis
      by (auto split: option.splits)
  qed
qed

lemma single_flight_run:
  "single_flight s \<Longrightarrow> single_flight (server_run s evs)"
  unfolding server_run_def
  by (induction evs arbitrary: s) (simp_all add: single_flight_step)

lemma single_flight_initial: "single_flight server_initial"
  by (simp add: single_flight_def server_initial_def)

lemma distinct_count_list_le_1: "distinct xs \<Longrightarrow> count_list xs x \<le> 1"
  by (induction xs) (auto simp: count_list_0_iff)

text \<open>
  C4. Starting an execution of a scenario whose entry has status running is rejected
  with an error and leaves the state, hence the entry, as it was; and in every state
  that the server reaches from the empty store each execution in flight has a running
  entry and no scenario has two executions in flight.
\<close>

theorem start_while_running_rejected:
  "(store s sid = Some e \<and> entry_status e = Running \<longrightarrow>
      start_execution sid n_models n_steps s = Inl AlreadyRunning \<and>
      server_step s (Start sid n_models n_steps) = s) \<and>
   single_flight (server_run server_initial evs) \<and>
   count_list (in_flight (server_run server_initial evs)) sid \<le> 1"
proof (intro conjI impI)
  assume r: "store s sid = Some e \<and> entry_status e = Running"
  then show rej: "start_execution sid n_models n_steps s = Inl AlreadyRunning"
    by (simp add: start_execution_def)
  then show "server_step s (Start sid n_models n_steps) = s"
    by simp
next
  show sf: "single_flight (server_run server_initial evs)"
    using single_flight_initial by (rule single_flight_run)
  then have "distinct (in_flight (server_run server_initial evs))"
    by (simp add: single_flight_def)
  then show "count_list (in_flight (server_run server_initial evs)) sid \<le> 1"
    by (rule distinct_count_list_le_1)
qed

text \<open>
  A scenario is started and has processed one step: a second start is rejected, the
  state stays, and one execution is in flight.
\<close>

theorem start_while_running_rejected_witness:
  "store (server_run server_initial [Start ''s1'' 2 5, Progress ''s1'']) ''s1'' =
     Some \<lparr>entry_status = Running, entry_total_models = 2, entry_total_steps = 5,
           entry_current_model_index = 0, entry_current_step = 1, entry_steps_processed = 1\<rparr> \<and>
   start_execution ''s1'' 2 5 (server_run server_initial [Start ''s1'' 2 5, Progress ''s1''])
     = Inl AlreadyRunning \<and>
   server_step (server_run server_initial [Start ''s1'' 2 5, Progress ''s1'']) (Start ''s1'' 2 5)
     = server_run server_initial [Start ''s1'' 2 5, Progress ''s1''] \<and>
   in_flight (server_run server_initial [Start ''s1'' 2 5, Progress ''s1'', Start ''s1'' 2 5]) = [''s1'']"
proof -
  have st: "store (server_run server_initial [Start ''s1'' 2 5, Progress ''s1'']) ''s1'' =
     Some \<lparr>entry_status = Running, entry_total_models = 2, entry_total_steps = 5,
           entry_current_model_index = 0, entry_current_step = 1, entry_steps_processed = 1\<rparr>"
    by (simp add: server_run_def server_initial_def start_execution_def)
  have fl: "in_flight (server_run server_initial [Start ''s1'' 2 5, Progress ''s1'', Start ''s1'' 2 5]) = [''s1'']"
    by (simp add: server_run_def server_initial_def start_execution_def)
  from st fl
    start_while_running_rejected
      [of "server_run server_initial [Start ''s1'' 2 5, Progress ''s1'']" "''s1''"
          "\<lparr>entry_status = Running, entry_total_models = 2, entry_total_steps = 5,
           entry_current_model_index = 0, entry_current_step = 1, entry_steps_processed = 1\<rparr>"
          2 5 "[Start ''s1'' 2 5, Progress ''s1'', Start ''s1'' 2 5]"]
  show ?thesis by simp
qed


end
